theory Spec2Isabelle
  imports Main
begin

section \<open>JavaScript values and the operators the scripts use\<close>

text \<open>
  The scripts read parsed JSON with property chains such as
  \<^verbatim>\<open>data.choices[0].message.content\<close> and test values for truthiness. A parsed
  value is a \<open>jsval\<close>; JSON numbers are abstracted as integers (only the test against
  zero matters here). An object is the association list of its own properties, each key
  once, as \<^verbatim>\<open>JSON.parse\<close> leaves them.
\<close>

datatype jsval =
    Undefined
  | Null
  | Bool bool
  | Num int
  | Str string
  | Arr "jsval list"
  | Obj "(string \<times> jsval) list"

datatype js_error =
    FetchFailed
  | JsonSyntaxError
  | TypeError
  | InvalidApiKey
  | ApiError nat jsval
  | ChatApiError nat
  | ImageApiError nat string
  | CouldNotParseImageUrl

text \<open>\<^verbatim>\<open>if (v)\<close>, \<^verbatim>\<open>a || b\<close>, \<^verbatim>\<open>a && b\<close>: the falsy values are undefined, null,
  false, 0 and the empty string.\<close>

fun truthy :: "jsval \<Rightarrow> bool" where
  "truthy Undefined = False"
| "truthy Null = False"
| "truthy (Bool b) = b"
| "truthy (Num n) = (n \<noteq> 0)"
| "truthy (Str s) = (s \<noteq> [])"
| "truthy (Arr xs) = True"
| "truthy (Obj kvs) = True"

text \<open>\<^verbatim>\<open>v.key\<close> for the keys the scripts use (none of them is a built-in property of
  strings, arrays or \<^verbatim>\<open>Object.prototype\<close>): reading a property of undefined or null
  throws a TypeError, a missing property reads as undefined.\<close>

fun get_prop :: "jsval \<Rightarrow> string \<Rightarrow> js_error + jsval" where
  "get_prop Undefined k = Inl TypeError"
| "get_prop Null k = Inl TypeError"
| "get_prop (Obj kvs) k = Inr (case map_of kvs k of None \<Rightarrow> Undefined | Some v \<Rightarrow> v)"
| "get_prop v k = Inr Undefined"

text \<open>\<^verbatim>\<open>v[0]\<close>: the first element of an array, the first character of a string, the
  property \<^verbatim>\<open>"0"\<close> of an object.\<close>

fun get_first :: "jsval \<Rightarrow> js_error + jsval" where
  "get_first Undefined = Inl TypeError"
| "get_first Null = Inl TypeError"
| "get_first (Arr xs) = Inr (case xs of [] \<Rightarrow> Undefined | x # _ \<Rightarrow> x)"
| "get_first (Str s) = Inr (case s of [] \<Rightarrow> Undefined | c # _ \<Rightarrow> Str [c])"
| "get_first (Obj kvs) = Inr (case map_of kvs ''0'' of None \<Rightarrow> Undefined | Some v \<Rightarrow> v)"
| "get_first v = Inr Undefined"

text \<open>\<^verbatim>\<open>v?.key\<close>: undefined when \<open>v\<close> is undefined or null.\<close>

fun opt_prop :: "jsval \<Rightarrow> string \<Rightarrow> js_error + jsval" where
  "opt_prop Undefined k = Inr Undefined"
| "opt_prop Null k = Inr Undefined"
| "opt_prop v k = get_prop v k"

text \<open>Sequencing of steps that may throw.\<close>

fun bind_err :: "js_error + 'a \<Rightarrow> ('a \<Rightarrow> js_error + 'b) \<Rightarrow> js_error + 'b" where
  "bind_err (Inl e) f = Inl e"
| "bind_err (Inr v) f = f v"

subsection \<open>Strings\<close>

primrec starts_with :: "string \<Rightarrow> string \<Rightarrow> bool" where
  "starts_with s [] = True"
| "starts_with s (p # ps) = (case s of [] \<Rightarrow> False | c # cs \<Rightarrow> c = p \<and> starts_with cs ps)"

text \<open>\<^verbatim>\<open>s.includes(sub)\<close>.\<close>

fun includes_str :: "string \<Rightarrow> string \<Rightarrow> bool" where
  "includes_str [] sub = (sub = [])"
| "includes_str (c # cs) sub = (starts_with (c # cs) sub \<or> includes_str cs sub)"

text \<open>\<^verbatim>\<open>s.split(sep)\<close> for a one-character separator: always at least one piece.\<close>

fun split_str :: "char \<Rightarrow> string \<Rightarrow> string list" where
  "split_str sep [] = [[]]"
| "split_str sep (c # cs) =
     (if c = sep then [] # split_str sep cs
      else (case split_str sep cs of [] \<Rightarrow> [[c]] | p # ps \<Rightarrow> (c # p) # ps))"

text \<open>\<^verbatim>\<open>s.replace(pat, rep)\<close> with a string pattern: the first occurrence only.\<close>

fun replace_first :: "string \<Rightarrow> string \<Rightarrow> string \<Rightarrow> string" where
  "replace_first pat rep [] = (if pat = [] then rep else [])"
| "replace_first pat rep (c # cs) =
     (if starts_with (c # cs) pat then rep @ drop (length pat) (c # cs)
      else c # replace_first pat rep cs)"

text \<open>\<^verbatim>\<open>s.trim()\<close>: the white space and line terminators among the 8-bit characters.\<close>

definition is_space :: "char \<Rightarrow> bool" where
  "is_space c = (c = CHR 0x09 \<or> c = CHR 0x0A \<or> c = CHR 0x0B \<or> c = CHR 0x0C
     \<or> c = CHR 0x0D \<or> c = CHR 0x20 \<or> c = CHR 0xA0)"

definition trim :: "string \<Rightarrow> string" where
  "trim s = rev (dropWhile is_space (rev (dropWhile is_space s)))"

text \<open>\<^verbatim>\<open>xs.slice(start)\<close>: a negative start counts from the end.\<close>

definition slice :: "int \<Rightarrow> 'a list \<Rightarrow> 'a list" where
  "slice start xs =
     (let len = int (length xs);
          k = (if start < 0 then max (len + start) 0 else min start len)
      in drop (nat k) xs)"

section \<open>Conversation state (class VeniceConversation)\<close>

record message =
  role :: string
  content :: jsval

record VeniceConversation =
  apiKey :: string
  model :: string
  messages :: "message list"
  maxHistory :: int

definition default_model :: string where
  "default_model = ''venice-uncensored''"

definition constructor :: "string \<Rightarrow> string \<Rightarrow> VeniceConversation" where
  "constructor key mdl = \<lparr> apiKey = key, model = mdl, messages = [], maxHistory = 20 \<rparr>"

definition addMessage :: "VeniceConversation \<Rightarrow> string \<Rightarrow> jsval \<Rightarrow> VeniceConversation" where
  "addMessage c r t =
     (let pushed = messages c @ [\<lparr> role = r, content = t \<rparr>]
      in if int (length pushed) > maxHistory c
         then c\<lparr> messages := slice (- maxHistory c) pushed \<rparr>
         else c\<lparr> messages := pushed \<rparr>)"

definition clear :: "VeniceConversation \<Rightarrow> VeniceConversation" where
  "clear c = c\<lparr> messages := [] \<rparr>"

definition getHistory :: "VeniceConversation \<Rightarrow> message list" where
  "getHistory c = messages c"

text \<open>A sequence of \<^verbatim>\<open>addMessage\<close> calls, oldest call first.\<close>

fun addMessages :: "VeniceConversation \<Rightarrow> (string \<times> jsval) list \<Rightarrow> VeniceConversation" where
  "addMessages c [] = c"
| "addMessages c ((r, t) # calls) = addMessages (addMessage c r t) calls"

definition as_message :: "string \<times> jsval \<Rightarrow> message" where
  "as_message p = \<lparr> role = fst p, content = snd p \<rparr>"

section \<open>HTTP exchange\<close>

text \<open>
  What one \<^verbatim>\<open>fetch\<close> call gives back: the promise rejects (no response at all), or it
  resolves to a response. \<open>body_json\<close> is what \<^verbatim>\<open>response.json()\<close> resolves to,
  \<open>None\<close> when the body is not JSON and the call rejects with a SyntaxError;
  \<open>body_text\<close> is the raw body (\<^verbatim>\<open>response.text()\<close>, \<^verbatim>\<open>response.blob()\<close>).
\<close>

record response =
  status :: nat
  headers :: "(string \<times> string) list"
  body_text :: string
  body_json :: "jsval option"

datatype fetch_result = Rejected | Resolved response

definition ok :: "response \<Rightarrow> bool" where
  "ok r = (200 \<le> status r \<and> status r \<le> 299)"

text \<open>\<^verbatim>\<open>response.headers.get(name)\<close>, \<open>None\<close> for null; the names are kept in lower
  case.\<close>

definition headers_get :: "response \<Rightarrow> string \<Rightarrow> string option" where
  "headers_get r name = map_of (headers r) name"

section \<open>Retry controller (callVeniceAPI)\<close>

definition maxRetries :: nat where
  "maxRetries = 3"

text \<open>How the body of the \<^verbatim>\<open>try\<close> block ends: it returns the parsed body, it sleeps
  \<open>waitTime\<close> ms after a 429 and continues the loop, or it throws into the
  \<^verbatim>\<open>catch\<close> block.\<close>

datatype attempt_result = Return jsval | RateLimited nat | Throw js_error

text \<open>One pass through the \<^verbatim>\<open>try\<close> block. The error body is parsed before the status
  is looked at; the reset header is read into \<open>resetTime\<close> and not used again. The
  console warning about a low remaining quota changes nothing and is left out.\<close>

definition attempt :: "fetch_result \<Rightarrow> nat \<Rightarrow> attempt_result" where
  "attempt fr retryCount =
     (case fr of
        Rejected \<Rightarrow> Throw FetchFailed
      | Resolved response \<Rightarrow>
          if \<not> ok response then
            (case body_json response of
               None \<Rightarrow> Throw JsonSyntaxError
             | Some error \<Rightarrow>
                 if status response = 429 then
                   (let resetTime = headers_get response ''x-ratelimit-reset-requests'';
                        waitTime = min (2 ^ retryCount * 1000) 60000
                    in RateLimited waitTime)
                 else if status response = 401 then Throw InvalidApiKey
                 else (case bind_err (get_prop error ''error'') (\<lambda>e. get_prop e ''message'') of
                         Inl e \<Rightarrow> Throw e
                       | Inr msg \<Rightarrow> Throw (ApiError (status response) msg)))
          else (case body_json response of
                  None \<Rightarrow> Throw JsonSyntaxError
                | Some v \<Rightarrow> Return v))"

text \<open>The result of a call: what the promise settles to, the number of \<^verbatim>\<open>fetch\<close> calls
  made, and the sleeps in order (ms).\<close>

record call_result =
  outcome :: "js_error + jsval"
  attempts :: nat
  waits :: "nat list"

text \<open>The \<^verbatim>\<open>while\<close> loop. \<open>fetch n\<close> is the result of the \<open>n\<close>-th \<^verbatim>\<open>fetch\<close> call of this
  invocation (every attempt sends the same request). Leaving the loop falls off the end of
  the function: the promise resolves to undefined.\<close>

function retry_loop :: "(nat \<Rightarrow> fetch_result) \<Rightarrow> nat \<Rightarrow> nat \<Rightarrow> nat list \<Rightarrow> call_result" where
  "retry_loop fetch retryCount n ws =
     (if retryCount < maxRetries then
        (case attempt (fetch n) retryCount of
           Return v \<Rightarrow> \<lparr> outcome = Inr v, attempts = Suc n, waits = ws \<rparr>
         | RateLimited waitTime \<Rightarrow> retry_loop fetch (retryCount + 1) (Suc n) (ws @ [waitTime])
         | Throw e \<Rightarrow>
             if retryCount = maxRetries - 1
             then \<lparr> outcome = Inl e, attempts = Suc n, waits = ws \<rparr>
             else retry_loop fetch (retryCount + 1) (Suc n) (ws @ [1000 * (retryCount + 1)]))
      else \<lparr> outcome = Inr Undefined, attempts = n, waits = ws \<rparr>)"
  by pat_completeness auto
termination
  by (relation "measure (\<lambda>(fetch, retryCount, n, ws). maxRetries - retryCount)") auto

declare retry_loop.simps [simp del]

definition callVeniceAPI :: "(nat \<Rightarrow> fetch_result) \<Rightarrow> call_result" where
  "callVeniceAPI fetch = retry_loop fetch 0 0 []"

text \<open>Responses for the examples: the error body of the API's documentation
  (\<^verbatim>\<open>{ error: { message, ... } }\<close>) under the statuses 401 and 429, and a success.\<close>

definition error_body :: "string \<Rightarrow> jsval" where
  "error_body m = Obj [(''error'', Obj [(''message'', Str m)])]"

definition unauthorized :: response where
  \<open>unauthorized = \<lparr> status = 401, headers = [],
     body_text = ''{"error":{"message":"Unauthorized"}}'',
     body_json = Some (error_body ''Unauthorized'') \<rparr>\<close>

definition rate_limited :: "(string \<times> string) list \<Rightarrow> response" where
  \<open>rate_limited hs = \<lparr> status = 429, headers = hs,
     body_text = ''{"error":{"message":"Rate limit exceeded"}}'',
     body_json = Some (error_body ''Rate limit exceeded'') \<rparr>\<close>

definition success :: response where
  \<open>success = \<lparr> status = 200, headers = [],
     body_text = ''{"ok":true}'',
     body_json = Some (Obj [(''ok'', Bool True)]) \<rparr>\<close>

section \<open>Streaming decoders\<close>

definition newline :: char where
  "newline = CHR 0x0A"

text \<open>\<^verbatim>\<open>JSON.parse\<close> belongs to the runtime; the decoders take it as the parameter
  \<open>parse\<close>, \<open>None\<close> when it throws. The \<^verbatim>\<open>try\<close> block of both decoders reads
  \<^verbatim>\<open>parsed.choices[0]?.delta?.content\<close>.\<close>

definition delta_content :: "(string \<Rightarrow> jsval option) \<Rightarrow> string \<Rightarrow> js_error + jsval" where
  "delta_content parse data =
     (case parse data of
        None \<Rightarrow> Inl JsonSyntaxError
      | Some parsed \<Rightarrow>
          bind_err (get_prop parsed ''choices'') (\<lambda>choices.
          bind_err (get_first choices) (\<lambda>choice.
          bind_err (opt_prop choice ''delta'') (\<lambda>delta.
          opt_prop delta ''content''))))"

subsection \<open>streamChatCompletion\<close>

text \<open>What the caller observes: the arguments of the \<^verbatim>\<open>onChunk\<close> calls in order, whether
  \<^verbatim>\<open>onComplete\<close> was called, the number of \<^verbatim>\<open>console.error\<close> calls, and whether the
  reader's lock was released.\<close>

record sink =
  emitted :: "jsval list"
  completed :: bool
  parse_errors :: nat
  released :: bool

definition initial_sink :: sink where
  "initial_sink = \<lparr> emitted = [], completed = False, parse_errors = 0, released = False \<rparr>"

text \<open>The \<^verbatim>\<open>for\<close> loop over the complete lines; the flag says that the function returned
  at the terminator.\<close>

fun for_lines :: "(string \<Rightarrow> jsval option) \<Rightarrow> string list \<Rightarrow> sink \<Rightarrow> bool \<times> sink" where
  "for_lines parse [] s = (False, s)"
| "for_lines parse (line # lines) s =
     (if trim line = [] \<or> \<not> starts_with line ''data: '' then for_lines parse lines s
      else
        (let data = drop 6 line
         in if data = ''[DONE]'' then (True, s\<lparr> completed := True \<rparr>)
            else
              (case delta_content parse data of
                 Inl e \<Rightarrow> for_lines parse lines (s\<lparr> parse_errors := Suc (parse_errors s) \<rparr>)
               | Inr content' \<Rightarrow>
                   for_lines parse lines
                     (if truthy content' then s\<lparr> emitted := emitted s @ [content'] \<rparr> else s))))"

text \<open>The \<^verbatim>\<open>while (true)\<close> loop over the chunks the reader delivers, already decoded to
  text (\<^verbatim>\<open>decode(value, { stream: true })\<close>); the empty list is \<^verbatim>\<open>done\<close>.\<close>

fun read_loop :: "(string \<Rightarrow> jsval option) \<Rightarrow> string list \<Rightarrow> string \<Rightarrow> sink \<Rightarrow> sink" where
  "read_loop parse [] buffer s = s"
| "read_loop parse (v # rest) buffer s =
     (let buffer1 = buffer @ v;
          lines = split_str newline buffer1;
          buffer2 = last lines;
          lines1 = butlast lines
      in case for_lines parse lines1 s of
           (True, s1) \<Rightarrow> s1
         | (False, s1) \<Rightarrow> read_loop parse rest buffer2 s1)"

definition streamChatCompletion :: "(string \<Rightarrow> jsval option) \<Rightarrow> string list \<Rightarrow> sink" where
  "streamChatCompletion parse chunks = (read_loop parse chunks [] initial_sink)\<lparr> released := True \<rparr>"

subsection \<open>generateResponse (the page script of the HTML template)\<close>

text \<open>The page: the values appended to \<^verbatim>\<open>responseDiv.textContent\<close> in order, the text of
  the status badge, and the number of \<^verbatim>\<open>console.error\<close> calls.\<close>

record page =
  responseDiv :: "jsval list"
  statusBadge :: string
  page_errors :: nat

fun for_lines_page :: "(string \<Rightarrow> jsval option) \<Rightarrow> string list \<Rightarrow> page \<Rightarrow> page" where
  "for_lines_page parse [] p = p"
| "for_lines_page parse (line # lines) p =
     (let data = replace_first ''data: '' [] line
      in if data = ''[DONE]'' then for_lines_page parse lines (p\<lparr> statusBadge := ''Complete'' \<rparr>)
         else
           (case delta_content parse data of
              Inl e \<Rightarrow> for_lines_page parse lines (p\<lparr> page_errors := Suc (page_errors p) \<rparr>)
            | Inr c \<Rightarrow>
                (let content' = (if truthy c then c else Str [])
                 in for_lines_page parse lines (p\<lparr> responseDiv := responseDiv p @ [content'] \<rparr>))))"

fun read_loop_page :: "(string \<Rightarrow> jsval option) \<Rightarrow> string list \<Rightarrow> page \<Rightarrow> page" where
  "read_loop_page parse [] p = p"
| "read_loop_page parse (v # rest) p =
     (let chunk = v;
          lines = filter (\<lambda>line. starts_with (trim line) ''data: '') (split_str newline chunk)
      in read_loop_page parse rest (for_lines_page parse lines p))"

text \<open>The call for a prompt that is not blank and a request that was answered with the
  stream \<open>chunks\<close>.\<close>

definition generateResponse :: "(string \<Rightarrow> jsval option) \<Rightarrow> string list \<Rightarrow> page" where
  "generateResponse parse chunks =
     read_loop_page parse chunks \<lparr> responseDiv = [], statusBadge = ''Generating...'', page_errors = 0 \<rparr>"

text \<open>The concatenation of the string deltas.\<close>

fun text_of :: "jsval list \<Rightarrow> string" where
  "text_of [] = []"
| "text_of (Str s # vs) = s @ text_of vs"
| "text_of (v # vs) = text_of vs"

text \<open>A wire made of complete lines, each ended by a line feed.\<close>

definition wire :: "string list \<Rightarrow> string" where
  "wire ls = concat (map (\<lambda>l. l @ [newline]) ls)"

text \<open>The frame that carries the text \<open>t\<close> as its delta, and \<^verbatim>\<open>JSON.parse\<close> on the
  payloads of the examples below: the two payloads of the specification's example parse to
  their frames, and the other strings the examples hand to it are not JSON.\<close>

definition delta_frame :: "string \<Rightarrow> jsval" where
  "delta_frame t = Obj [(''choices'', Arr [Obj [(''delta'', Obj [(''content'', Str t)])]])]"

definition example_parse :: "string \<Rightarrow> jsval option" where
  \<open>example_parse s =
     (if s = ''{"choices":[{"delta":{"content":"He"}}]}'' then Some (delta_frame ''He'')
      else if s = ''{"choices":[{"delta":{"content":"llo"}}]}'' then Some (delta_frame ''llo'')
      else None)\<close>

text \<open>The three lines of the specification's example.\<close>

definition frame_He :: string where
  \<open>frame_He = ''data: {"choices":[{"delta":{"content":"He"}}]}''\<close>

definition frame_llo :: string where
  \<open>frame_llo = ''data: {"choices":[{"delta":{"content":"llo"}}]}''\<close>

definition frame_DONE :: string where
  "frame_DONE = ''data: [DONE]''"

section \<open>VeniceConversation.send\<close>

record chat_request =
  req_model :: string
  req_messages :: "message list"
  req_options :: "(string \<times> jsval) list"

text \<open>\<open>fetch\<close> answers the request the call issues. The result is what the promise settles
  to, with the conversation as the call leaves it.\<close>

definition send ::
  "VeniceConversation \<Rightarrow> jsval \<Rightarrow> (string \<times> jsval) list \<Rightarrow> (chat_request \<Rightarrow> fetch_result)
    \<Rightarrow> (js_error + jsval) \<times> VeniceConversation" where
  "send c userMessage options fetch =
     (let c1 = addMessage c ''user'' userMessage;
          request = \<lparr> req_model = model c1, req_messages = messages c1, req_options = options \<rparr>
      in case fetch request of
           Rejected \<Rightarrow> (Inl FetchFailed, c1)
         | Resolved response \<Rightarrow>
             (case body_json response of
                None \<Rightarrow> (Inl JsonSyntaxError, c1)
              | Some data \<Rightarrow>
                  (case bind_err (get_prop data ''choices'') (\<lambda>choices.
                        bind_err (get_first choices) (\<lambda>choice.
                        bind_err (get_prop choice ''message'') (\<lambda>msg.
                        get_prop msg ''content''))) of
                     Inl e \<Rightarrow> (Inl e, c1)
                   | Inr assistantMessage \<Rightarrow>
                       (Inr assistantMessage, addMessage c1 ''assistant'' assistantMessage))))"

section \<open>Image pipeline (generateStylizedImage, two variants)\<close>

definition comma :: char where
  "comma = CHR '',''"

text \<open>\<^verbatim>\<open>pieces[1]\<close>.\<close>

fun second :: "string list \<Rightarrow> jsval" where
  "second (x # y # ys) = Str y"
| "second xs = Undefined"

record image_request =
  bearer :: string
  image :: jsval
  edit_prompt :: string

definition prompt_script :: string where
  "prompt_script = ''A whimsical, festive watercolor Christmas scene featuring the person in the uploaded image. Snowy wonderland background, twinkling lights, pine trees, artistic watercolor style, soft edges, festive atmosfera, preserve person likeness.''"

definition prompt_card :: string where
  "prompt_card = ''A 1950s retro-futuristic watercolor holiday card featuring the person in the uploaded image. Seamlessly integrate their face and likeness into the scene as the main character. Atomic age Christmas style, pastel colors, vintage sci-fi aesthetic, festive atmosphere, highly detailed, smooth painting style.''"

text \<open>The request each variant submits: the image is \<^verbatim>\<open>split(',')[1]\<close> in script.js
  (a missing property when it is undefined) and \<^verbatim>\<open>split(',')[1] || base64Image\<close> in the
  card generator.\<close>

definition request_script :: "string \<Rightarrow> string \<Rightarrow> image_request" where
  "request_script key base64Image =
     (let base64Data = second (split_str comma base64Image)
      in \<lparr> bearer = key, image = base64Data, edit_prompt = prompt_script \<rparr>)"

definition request_card :: "string \<Rightarrow> string \<Rightarrow> image_request" where
  "request_card key base64Image =
     (let piece = second (split_str comma base64Image);
          base64Data = (if truthy piece then piece else Str base64Image)
      in \<lparr> bearer = key, image = base64Data, edit_prompt = prompt_card \<rparr>)"

text \<open>What the call hands back: an object URL made for the binary body, a value taken
  from the JSON as it is, or the text \<^verbatim>\<open>data:image/png;base64,\<close> followed by such a
  value.\<close>

datatype image_ref = ObjectURL string | Direct jsval | PngDataUri jsval

record image_result =
  settled :: "js_error + image_ref"
  console_log :: "jsval list"

text \<open>\<^verbatim>\<open>data.key && data.key[0].field\<close>.\<close>

definition nested :: "jsval \<Rightarrow> string \<Rightarrow> string \<Rightarrow> js_error + jsval" where
  "nested data key field =
     bind_err (get_prop data key) (\<lambda>d.
       if truthy d then bind_err (get_first d) (\<lambda>x. get_prop x field) else Inr d)"

text \<open>The variant of script.js.\<close>

definition generateStylizedImage_script ::
  "string \<Rightarrow> string \<Rightarrow> (image_request \<Rightarrow> fetch_result) \<Rightarrow> image_result" where
  "generateStylizedImage_script key base64Image fetch =
     (case fetch (request_script key base64Image) of
           Rejected \<Rightarrow> \<lparr> settled = Inl FetchFailed, console_log = [] \<rparr>
         | Resolved response \<Rightarrow>
             if \<not> ok response
             then \<lparr> settled = Inl (ImageApiError (status response) (body_text response)),
                    console_log = [] \<rparr>
             else
               (case body_json response of
                  None \<Rightarrow> \<lparr> settled = Inl JsonSyntaxError, console_log = [] \<rparr>
                | Some data \<Rightarrow>
                    \<lparr> settled =
                        bind_err (get_prop data ''url'') (\<lambda>u.
                          if truthy u then Inr (Direct u)
                          else bind_err (nested data ''data'' ''url'') (\<lambda>n.
                            if truthy n then Inr (Direct n)
                            else bind_err (nested data ''images'' ''url'') (\<lambda>i. Inr (Direct i)))),
                      console_log = [] \<rparr>))"

text \<open>The variant of the card generator.\<close>

definition generateStylizedImage ::
  "string \<Rightarrow> string \<Rightarrow> (image_request \<Rightarrow> fetch_result) \<Rightarrow> image_result" where
  "generateStylizedImage key base64Image fetch =
     (case fetch (request_card key base64Image) of
           Rejected \<Rightarrow> \<lparr> settled = Inl FetchFailed, console_log = [] \<rparr>
         | Resolved response \<Rightarrow>
             if \<not> ok response
             then \<lparr> settled = Inl (ImageApiError (status response) (body_text response)),
                    console_log = [] \<rparr>
             else
               (let contentType = headers_get response ''content-type''
                in if (case contentType of None \<Rightarrow> False
                       | Some ct \<Rightarrow> ct \<noteq> [] \<and> includes_str ct ''image'')
                   then \<lparr> settled = Inr (ObjectURL (body_text response)), console_log = [] \<rparr>
                   else
                     (case body_json response of
                        None \<Rightarrow> \<lparr> settled = Inl JsonSyntaxError, console_log = [] \<rparr>
                      | Some data \<Rightarrow>
                          (case nested data ''data'' ''url'' of
                             Inl e \<Rightarrow> \<lparr> settled = Inl e, console_log = [] \<rparr>
                           | Inr u \<Rightarrow>
                          if truthy u then \<lparr> settled = Inr (Direct u), console_log = [] \<rparr>
                          else
                          (case nested data ''data'' ''b64_json'' of
                             Inl e \<Rightarrow> \<lparr> settled = Inl e, console_log = [] \<rparr>
                           | Inr b \<Rightarrow>
                          if truthy b then \<lparr> settled = Inr (PngDataUri b), console_log = [] \<rparr>
                          else
                          (case get_prop data ''url'' of
                             Inl e \<Rightarrow> \<lparr> settled = Inl e, console_log = [] \<rparr>
                           | Inr du \<Rightarrow>
                          if truthy du then \<lparr> settled = Inr (Direct du), console_log = [] \<rparr>
                          else
                          (case get_prop data ''image'' of
                             Inl e \<Rightarrow> \<lparr> settled = Inl e, console_log = [] \<rparr>
                           | Inr im \<Rightarrow>
                          if truthy im then \<lparr> settled = Inr (PngDataUri im), console_log = [] \<rparr>
                          else \<lparr> settled = Inl CouldNotParseImageUrl,
                                 console_log = [data] \<rparr>)))))))"

text \<open>An image reference the canvas can load: an object URL, or a text that is not empty.\<close>

fun usable :: "image_ref \<Rightarrow> bool" where
  "usable (ObjectURL b) = True"
| "usable (Direct (Str u)) = (u \<noteq> [])"
| "usable (PngDataUri (Str b)) = True"
| "usable r = False"


text \<open>Responses for the examples: a JSON body, and a binary image.\<close>

definition json_response :: "string \<Rightarrow> jsval \<Rightarrow> response" where
  "json_response txt v = \<lparr> status = 200, headers = [(''content-type'', ''application/json'')],
     body_text = txt, body_json = Some v \<rparr>"

definition png_response :: "string \<Rightarrow> response" where
  "png_response bytes = \<lparr> status = 200, headers = [(''content-type'', ''image/png'')],
     body_text = bytes, body_json = None \<rparr>"

section \<open>Conversation: the bound on the history\<close>

lemma slice_neg:
  "0 < m \<Longrightarrow> slice (- m) xs = drop (length xs - nat m) xs"
  by (auto simp: slice_def Let_def max_def intro!: arg_cong2 [where f = drop])

lemma drop_window:
  fixes m :: nat
  assumes "k \<le> length as" and "k = 0 \<or> length as - k = m"
  shows "drop (length (drop k as) + n - m) (drop k as @ ys) = drop (length as + n - m) (as @ ys)"
proof (cases "k = 0")
  case True
  then show ?thesis by simp
next
  case False
  with assms have m: "length as - k = m" by simp
  have "drop k as @ ys = drop k (as @ ys)" using assms(1) by simp
  moreover have "length (drop k as) + n - m = n" using m by simp
  moreover have "length as + n - m = n + k" using m assms(1) by linarith
  ultimately show ?thesis by (simp only: drop_drop)
qed

lemma addMessage_fields [simp]:
  "maxHistory (addMessage c r t) = maxHistory c"
  "apiKey (addMessage c r t) = apiKey c"
  "model (addMessage c r t) = model c"
  by (simp_all add: addMessage_def Let_def)

lemma addMessage_messages:
  assumes "0 < maxHistory c"
  shows "messages (addMessage c r t) =
    drop (Suc (length (messages c)) - nat (maxHistory c)) (messages c @ [\<lparr> role = r, content = t \<rparr>])"
proof (cases "int (Suc (length (messages c))) > maxHistory c")
  case True
  then show ?thesis using assms by (simp add: addMessage_def Let_def slice_neg)
next
  case False
  then have "Suc (length (messages c)) - nat (maxHistory c) = 0" by simp
  with False show ?thesis by (simp add: addMessage_def Let_def)
qed

lemma addMessages_fields [simp]:
  "maxHistory (addMessages c calls) = maxHistory c"
  by (induction c calls rule: addMessages.induct) simp_all

lemma addMessages_messages:
  assumes "0 < maxHistory c" and "int (length (messages c)) \<le> maxHistory c"
  shows "messages (addMessages c calls) =
    drop (length (messages c) + length calls - nat (maxHistory c))
      (messages c @ map as_message calls)"
  using assms
proof (induction c calls rule: addMessages.induct)
  case (1 c)
  then show ?case by simp
next
  case (2 c r t calls)
  let ?c' = "addMessage c r t"
  let ?m = "nat (maxHistory c)"
  let ?all = "messages c @ [\<lparr> role = r, content = t \<rparr>]"
  have msgs: "messages ?c' = drop (Suc (length (messages c)) - ?m) ?all"
    using 2(2) by (rule addMessage_messages)
  have len: "length (messages ?c') = Suc (length (messages c)) - (Suc (length (messages c)) - ?m)"
    by (simp add: msgs)
  have bound: "int (length (messages ?c')) \<le> maxHistory ?c'"
    using 2(2,3) by (simp add: len)
  have pos: "0 < maxHistory ?c'" using 2(2) by simp
  have "messages (addMessages ?c' calls) =
      drop (length (messages ?c') + length calls - ?m) (messages ?c' @ map as_message calls)"
    using 2(1) [OF pos bound] by simp
  also have "\<dots> = drop (length ?all + length calls - ?m) (?all @ map as_message calls)"
    unfolding msgs by (rule drop_window) auto
  also have "\<dots> = drop (length (messages c) + length ((r, t) # calls) - ?m)
      (messages c @ map as_message ((r, t) # calls))"
    by (simp add: as_message_def)
  finally show ?case by simp
qed

lemma constructed_history:
  "messages (addMessages (constructor key mdl) calls) =
     drop (length calls - 20) (map as_message calls)
   \<and> length (messages (addMessages (constructor key mdl) calls)) \<le> 20"
proof -
  have "messages (addMessages (constructor key mdl) calls) =
      drop (length calls - 20) (map as_message calls)"
    using addMessages_messages [of "constructor key mdl" calls] by (simp add: constructor_def)
  then show ?thesis by simp
qed

text \<open>
  Claim C5. For a conversation whose maximum is positive and whose history is within it (as
  the constructor leaves it: empty, maximum 20), after any sequence of \<^verbatim>\<open>addMessage\<close> calls
  the history is no longer than the maximum and is exactly the most recent messages of the
  old history followed by the added ones, in their order; a single call keeps a suffix of
  the old history followed by the new message, so only the oldest messages are dropped.
\<close>

theorem addMessage_history_bounded:
  assumes "0 < maxHistory c" and "int (length (messages c)) \<le> maxHistory c"
  shows "int (length (messages (addMessages c calls))) \<le> maxHistory c
    \<and> messages (addMessages c calls) =
        drop (length (messages c) + length calls - nat (maxHistory c))
          (messages c @ map as_message calls)
    \<and> messages (addMessage c r t) =
        drop (Suc (length (messages c)) - nat (maxHistory c))
          (messages c @ [\<lparr> role = r, content = t \<rparr>])"
proof -
  have eq: "messages (addMessages c calls) =
        drop (length (messages c) + length calls - nat (maxHistory c))
          (messages c @ map as_message calls)"
    using assms by (rule addMessages_messages)
  have "length (messages (addMessages c calls)) \<le> nat (maxHistory c)"
    using assms by (simp add: eq)
  then have "int (length (messages (addMessages c calls))) \<le> maxHistory c"
    using assms(1) by linarith
  with eq addMessage_messages [OF assms(1)] show ?thesis by blast
qed

theorem addMessage_history_bounded_witness:
  "0 < maxHistory \<lparr> apiKey = ''k'', model = ''m'', messages = [], maxHistory = 2 \<rparr>
   \<and> int (length (messages \<lparr> apiKey = ''k'', model = ''m'', messages = [], maxHistory = 2 \<rparr>)) \<le> 2
   \<and> messages (addMessages \<lparr> apiKey = ''k'', model = ''m'', messages = [], maxHistory = 2 \<rparr>
        [(''user'', Str ''a''), (''assistant'', Str ''b''), (''user'', Str ''c'')])
      = [\<lparr> role = ''assistant'', content = Str ''b'' \<rparr>, \<lparr> role = ''user'', content = Str ''c'' \<rparr>]"
  using addMessage_history_bounded
    [of "\<lparr> apiKey = ''k'', model = ''m'', messages = [], maxHistory = 2 \<rparr>"
      "[(''user'', Str ''a''), (''assistant'', Str ''b''), (''user'', Str ''c'')]"]
  by (simp add: as_message_def)

section \<open>Image pipeline: the payload of the two variants\<close>

lemma split_str_not_Nil [simp]: "split_str sep s \<noteq> []"
  by (induction s) (auto split: list.splits)

lemma split_str_no_sep: "sep \<notin> set s \<Longrightarrow> split_str sep s = [s]"
  by (induction s) auto

lemma split_str_sep: "sep \<in> set s \<Longrightarrow> \<exists>x y ys. split_str sep s = x # y # ys"
proof (induction s)
  case Nil
  then show ?case by simp
next
  case (Cons c cs)
  show ?case
  proof (cases "c = sep")
    case True
    then show ?thesis by (cases "split_str sep cs") auto
  next
    case False
    with Cons obtain x y ys where "split_str sep cs = x # y # ys" by auto
    with False show ?thesis by simp
  qed
qed

lemma second_split_str: "(second (split_str sep s) = Undefined) = (sep \<notin> set s)"
proof (cases "sep \<in> set s")
  case True
  then obtain x y ys where "split_str sep s = x # y # ys" using split_str_sep by blast
  with True show ?thesis by simp
next
  case False
  then show ?thesis by (simp add: split_str_no_sep)
qed

lemma second_cases: "second xs = Undefined \<or> (\<exists>y. second xs = Str y)"
  by (cases xs rule: second.cases) auto

lemma second_no_comma: "comma \<notin> set b \<Longrightarrow> second (split_str comma b) = Undefined"
  by (simp add: second_split_str)

lemma request_script_plain:
  "comma \<notin> set b \<Longrightarrow>
   request_script key b = \<lparr> bearer = key, image = Undefined, edit_prompt = prompt_script \<rparr>"
  by (simp add: request_script_def second_no_comma)

lemma request_card_plain:
  "comma \<notin> set b \<Longrightarrow>
   request_card key b = \<lparr> bearer = key, image = Str b, edit_prompt = prompt_card \<rparr>"
  by (simp add: request_card_def second_no_comma)

lemma script_submits:
  "fetch (request_script key b) = Rejected \<Longrightarrow>
     settled (generateStylizedImage_script key b fetch) = Inl FetchFailed"
  "fetch (request_script key b) = Resolved r \<Longrightarrow> \<not> ok r \<Longrightarrow>
     settled (generateStylizedImage_script key b fetch)
       = Inl (ImageApiError (status r) (body_text r))"
  "generateStylizedImage_script key b fetch
     = generateStylizedImage_script key b (\<lambda>q. fetch (request_script key b))"
  by (simp_all add: generateStylizedImage_script_def)

lemma card_submits:
  "fetch (request_card key b) = Rejected \<Longrightarrow>
     settled (generateStylizedImage key b fetch) = Inl FetchFailed"
  "fetch (request_card key b) = Resolved r \<Longrightarrow> \<not> ok r \<Longrightarrow>
     settled (generateStylizedImage key b fetch)
       = Inl (ImageApiError (status r) (body_text r))"
  "generateStylizedImage key b fetch
     = generateStylizedImage key b (\<lambda>q. fetch (request_card key b))"
  by (simp_all add: generateStylizedImage_def)

text \<open>
  Claim C10. For an input image string without a comma, the script.js variant extracts an
  undefined image and submits it: the one request it hands to \<^verbatim>\<open>fetch\<close> carries the image
  undefined, and the answer to that request decides the call (a rejection fails it with
  the fetch error, a response that is not ok with the API error). The card generator
  submits the input string unchanged in the same way. Each variant consults \<^verbatim>\<open>fetch\<close> at
  its own request only. Whenever the two variants submit the same image the input contains
  a comma; they submit the same image exactly when \<^verbatim>\<open>split(',')[1]\<close> is a text that is not
  empty.
\<close>

theorem image_payload_variants:
  "(comma \<notin> set b \<longrightarrow>
      image (request_script key b) = Undefined \<and> image (request_card key b) = Str b)
   \<and> (image (request_script key b) = image (request_card key b) \<longrightarrow> comma \<in> set b)
   \<and> (image (request_script key b) = image (request_card key b))
       = truthy (image (request_script key b))
   \<and> (comma \<notin> set b \<longrightarrow>
        (fetch \<lparr> bearer = key, image = Undefined, edit_prompt = prompt_script \<rparr> = Rejected \<longrightarrow>
           settled (generateStylizedImage_script key b fetch) = Inl FetchFailed)
      \<and> (fetch \<lparr> bearer = key, image = Undefined, edit_prompt = prompt_script \<rparr> = Resolved r
           \<and> \<not> ok r \<longrightarrow>
           settled (generateStylizedImage_script key b fetch)
             = Inl (ImageApiError (status r) (body_text r)))
      \<and> (fetch \<lparr> bearer = key, image = Str b, edit_prompt = prompt_card \<rparr> = Rejected \<longrightarrow>
           settled (generateStylizedImage key b fetch) = Inl FetchFailed)
      \<and> (fetch \<lparr> bearer = key, image = Str b, edit_prompt = prompt_card \<rparr> = Resolved r
           \<and> \<not> ok r \<longrightarrow>
           settled (generateStylizedImage key b fetch)
             = Inl (ImageApiError (status r) (body_text r))))
   \<and> generateStylizedImage_script key b fetch
       = generateStylizedImage_script key b (\<lambda>q. fetch (request_script key b))
   \<and> generateStylizedImage key b fetch
       = generateStylizedImage key b (\<lambda>q. fetch (request_card key b))"
proof -
  let ?p = "second (split_str comma b)"
  have none: "comma \<notin> set b \<Longrightarrow> ?p = Undefined" by (simp add: second_split_str)
  have a: "comma \<notin> set b \<longrightarrow>
      image (request_script key b) = Undefined \<and> image (request_card key b) = Str b"
    using none by (simp add: request_script_def request_card_def)
  have c: "(image (request_script key b) = image (request_card key b))
      = truthy (image (request_script key b))"
  proof (cases "truthy ?p")
    case True
    then show ?thesis by (simp add: request_script_def request_card_def)
  next
    case False
    from second_cases [of "split_str comma b"] show ?thesis
    proof
      assume "?p = Undefined"
      then show ?thesis by (simp add: request_script_def request_card_def)
    next
      assume "\<exists>y. ?p = Str y"
      then obtain y where y: "?p = Str y" by blast
      with False have "y = []" by simp
      moreover have "b \<noteq> []" using y by auto
      ultimately show ?thesis using y by (simp add: request_script_def request_card_def)
    qed
  qed
  have i: "image (request_script key b) = image (request_card key b) \<longrightarrow> comma \<in> set b"
  proof
    assume "image (request_script key b) = image (request_card key b)"
    with c have "truthy ?p" by (simp add: request_script_def)
    then have "?p \<noteq> Undefined" by auto
    then show "comma \<in> set b" by (simp add: second_split_str)
  qed
  have s: "comma \<notin> set b \<longrightarrow>
        (fetch \<lparr> bearer = key, image = Undefined, edit_prompt = prompt_script \<rparr> = Rejected \<longrightarrow>
           settled (generateStylizedImage_script key b fetch) = Inl FetchFailed)
      \<and> (fetch \<lparr> bearer = key, image = Undefined, edit_prompt = prompt_script \<rparr> = Resolved r
           \<and> \<not> ok r \<longrightarrow>
           settled (generateStylizedImage_script key b fetch)
             = Inl (ImageApiError (status r) (body_text r)))"
    using script_submits(1,2) [of fetch key b] request_script_plain [of b key] by auto
  have d: "comma \<notin> set b \<longrightarrow>
        (fetch \<lparr> bearer = key, image = Str b, edit_prompt = prompt_card \<rparr> = Rejected \<longrightarrow>
           settled (generateStylizedImage key b fetch) = Inl FetchFailed)
      \<and> (fetch \<lparr> bearer = key, image = Str b, edit_prompt = prompt_card \<rparr> = Resolved r
           \<and> \<not> ok r \<longrightarrow>
           settled (generateStylizedImage key b fetch)
             = Inl (ImageApiError (status r) (body_text r)))"
    using card_submits(1,2) [of fetch key b] request_card_plain [of b key] by auto
  from a i c s d script_submits(3) [of key b fetch] card_submits(3) [of key b fetch]
  show ?thesis by blast
qed

theorem image_payload_variants_witness:
  \<open>comma \<notin> set ''AAAA''
   \<and> image (request_script ''k'' ''AAAA'') = Undefined
   \<and> image (request_card ''k'' ''AAAA'') = Str ''AAAA''
   \<and> image (request_script ''k'' ''data:image/png;base64,AAAA'')
       = image (request_card ''k'' ''data:image/png;base64,AAAA'')
   \<and> comma \<in> set ''data:image/png;base64,AAAA''
   \<and> image (request_script ''k'' ''x,'') \<noteq> image (request_card ''k'' ''x,'')
   \<and> settled (generateStylizedImage_script ''k'' ''AAAA''
         (\<lambda>q. if image q = Undefined then Rejected
              else Resolved (json_response ''{"url":"https://img/1.png"}''
                     (Obj [(''url'', Str ''https://img/1.png'')]))))
       = Inl FetchFailed
   \<and> settled (generateStylizedImage ''k'' ''AAAA''
         (\<lambda>q. if image q = Undefined then Rejected
              else Resolved (json_response ''{"url":"https://img/1.png"}''
                     (Obj [(''url'', Str ''https://img/1.png'')]))))
       = Inr (Direct (Str ''https://img/1.png''))
   \<and> \<not> ok unauthorized
   \<and> settled (generateStylizedImage_script ''k'' ''AAAA''
         (\<lambda>q. if image q = Str ''AAAA'' then Rejected else Resolved unauthorized))
       = Inl (ImageApiError 401 (body_text unauthorized))
   \<and> settled (generateStylizedImage ''k'' ''AAAA''
         (\<lambda>q. if image q = Str ''AAAA'' then Rejected else Resolved unauthorized))
       = Inl FetchFailed\<close>
  using image_payload_variants [where b = "''AAAA''" and key = "''k''"
      and fetch = "\<lambda>q. if image q = Str ''AAAA'' then Rejected else Resolved unauthorized"
      and r = unauthorized]
    image_payload_variants [where b = "''data:image/png;base64,AAAA''" and key = "''k''"]
    image_payload_variants [where b = "''x,''" and key = "''k''"]
  by (simp add: comma_def request_script_def request_card_def generateStylizedImage_script_def
      generateStylizedImage_def json_response_def unauthorized_def ok_def headers_get_def
      nested_def Let_def)

section \<open>Retry controller\<close>

lemma attempt_unauthorized: "attempt (Resolved unauthorized) k = Throw InvalidApiKey"
  by (simp add: attempt_def unauthorized_def ok_def)

lemma attempt_rate_limited:
  "attempt (Resolved (rate_limited hs)) k = RateLimited (min (2 ^ k * 1000) 60000)"
  by (simp add: attempt_def rate_limited_def ok_def Let_def)

lemma attempt_success: "attempt (Resolved success) k = Return (Obj [(''ok'', Bool True)])"
  by (simp add: attempt_def success_def ok_def)

lemma attempt_rejected: "attempt Rejected k = Throw FetchFailed"
  by (simp add: attempt_def)

lemma attempt_401:
  "status r = 401 \<Longrightarrow> \<exists>e. attempt (Resolved r) k = Throw e"
  by (simp add: attempt_def ok_def split: option.splits)

lemma retry_loop_3:
  "retry_loop fetch (Suc (Suc (Suc 0))) n ws =
     \<lparr> outcome = Inr Undefined, attempts = n, waits = ws \<rparr>"
  by (subst retry_loop.simps) (simp add: maxRetries_def)

lemma retry_loop_2:
  "retry_loop fetch (Suc (Suc 0)) n ws =
     (case attempt (fetch n) (Suc (Suc 0)) of
        Return v \<Rightarrow> \<lparr> outcome = Inr v, attempts = Suc n, waits = ws \<rparr>
      | RateLimited w \<Rightarrow> \<lparr> outcome = Inr Undefined, attempts = Suc n, waits = ws @ [w] \<rparr>
      | Throw e \<Rightarrow> \<lparr> outcome = Inl e, attempts = Suc n, waits = ws \<rparr>)"
  by (subst retry_loop.simps)
     (simp add: maxRetries_def retry_loop_3 split: attempt_result.split)

lemma retry_loop_1:
  "retry_loop fetch (Suc 0) n ws =
     (case attempt (fetch n) (Suc 0) of
        Return v \<Rightarrow> \<lparr> outcome = Inr v, attempts = Suc n, waits = ws \<rparr>
      | RateLimited w \<Rightarrow> retry_loop fetch (Suc (Suc 0)) (Suc n) (ws @ [w])
      | Throw e \<Rightarrow> retry_loop fetch (Suc (Suc 0)) (Suc n) (ws @ [2000]))"
  by (subst retry_loop.simps) (simp add: maxRetries_def split: attempt_result.split)

lemma retry_loop_0:
  "retry_loop fetch 0 n ws =
     (case attempt (fetch n) 0 of
        Return v \<Rightarrow> \<lparr> outcome = Inr v, attempts = Suc n, waits = ws \<rparr>
      | RateLimited w \<Rightarrow> retry_loop fetch (Suc 0) (Suc n) (ws @ [w])
      | Throw e \<Rightarrow> retry_loop fetch (Suc 0) (Suc n) (ws @ [1000]))"
  by (subst retry_loop.simps) (simp add: maxRetries_def split: attempt_result.split)

lemmas retry_unfold = callVeniceAPI_def retry_loop_0 retry_loop_1 retry_loop_2

text \<open>
  Claim C1 says that a 401 ends the call after one attempt with an authentication error.
  The code throws that error inside the \<^verbatim>\<open>try\<close> block, where its own \<^verbatim>\<open>catch\<close> takes it
  for a retry: answered 401 and then 200 the call makes two attempts, sleeps 1000 ms
  between them and returns the success; answered 401 every time it makes three attempts
  before the error reaches the caller.
\<close>

theorem unauthorized_retried:
  "callVeniceAPI (\<lambda>n. if n = 0 then Resolved unauthorized else Resolved success)
     = \<lparr> outcome = Inr (Obj [(''ok'', Bool True)]), attempts = 2, waits = [1000] \<rparr>
   \<and> callVeniceAPI (\<lambda>n. Resolved unauthorized)
     = \<lparr> outcome = Inl InvalidApiKey, attempts = 3, waits = [1000, 2000] \<rparr>"
  by (simp add: retry_unfold attempt_unauthorized attempt_success)

lemma first_401_retried:
  assumes "fetch 0 = Resolved r" and "status r = 401"
  shows "2 \<le> attempts (callVeniceAPI fetch)"
proof -
  obtain e where "attempt (fetch 0) 0 = Throw e" using assms attempt_401 by metis
  then show ?thesis
    by (simp add: retry_unfold split: attempt_result.split)
qed

text \<open>
  Claim C2 says that after three failed attempts the last error is raised. Answered 429
  four times in a row, the call makes three attempts, sleeps after each of them, leaves
  the loop and resolves to undefined: no error reaches the caller. (When the third attempt
  throws instead, the error is raised: \<open>network_errors_exhausted\<close>, \<open>all_fail\<close> below.)
\<close>

theorem rate_limited_exhausted:
  "callVeniceAPI (\<lambda>n. if n < 4 then Resolved (rate_limited []) else Rejected)
     = \<lparr> outcome = Inr Undefined, attempts = 3, waits = [1000, 2000, 4000] \<rparr>"
  by (simp add: retry_unfold attempt_rate_limited)

lemma network_errors_exhausted:
  "callVeniceAPI (\<lambda>n. Rejected)
     = \<lparr> outcome = Inl FetchFailed, attempts = 3, waits = [1000, 2000] \<rparr>"
  by (simp add: retry_unfold attempt_rejected)

lemma attempts_le: "attempts (callVeniceAPI fetch) \<le> 3"
  by (simp add: retry_unfold split: attempt_result.split)

lemma all_fail:
  assumes "\<forall>n < 3. \<forall>v. attempt (fetch n) n \<noteq> Return v"
  shows "attempts (callVeniceAPI fetch) = 3
    \<and> outcome (callVeniceAPI fetch) =
        (case attempt (fetch 2) 2 of Throw e \<Rightarrow> Inl e | _ \<Rightarrow> Inr Undefined)"
proof -
  have "\<forall>v. attempt (fetch 0) 0 \<noteq> Return v"
    "\<forall>v. attempt (fetch (Suc 0)) (Suc 0) \<noteq> Return v"
    "\<forall>v. attempt (fetch (Suc (Suc 0))) (Suc (Suc 0)) \<noteq> Return v"
    using assms by (auto simp: numeral_3_eq_3)
  then show ?thesis
    by (simp add: retry_unfold numeral_2_eq_2 split: attempt_result.split)
qed

lemma attempt_ignores_headers:
  "attempt (Resolved (r\<lparr> headers := hs \<rparr>)) k = attempt (Resolved r) k"
  by (simp add: attempt_def ok_def Let_def headers_get_def split: option.split sum.split)

lemma backoff_429:
  assumes "status r = 429" and "body_json r = Some b"
  shows "attempt (Resolved r) k = RateLimited (min (2 ^ k * 1000) 60000)"
  using assms by (simp add: attempt_def ok_def Let_def)

text \<open>
  Claim C7 says that the delay after a 429 is \<open>min (2 ^ k * base) cap\<close> and that a reset
  hint of the server is honoured. The delay is that minimum (\<open>backoff_429\<close>, with base
  1000 and cap 60000), and no header changes what an attempt does
  (\<open>attempt_ignores_headers\<close>): with the reset header and without it the call sleeps the
  same 1000 ms.
\<close>

theorem reset_hint_ignored:
  "callVeniceAPI (\<lambda>n. if n = 0
       then Resolved (rate_limited [(''x-ratelimit-reset-requests'', ''1767225600'')])
       else Resolved success)
     = \<lparr> outcome = Inr (Obj [(''ok'', Bool True)]), attempts = 2, waits = [1000] \<rparr>
   \<and> callVeniceAPI (\<lambda>n. if n = 0 then Resolved (rate_limited []) else Resolved success)
     = \<lparr> outcome = Inr (Obj [(''ok'', Bool True)]), attempts = 2, waits = [1000] \<rparr>"
  by (simp add: retry_unfold attempt_rate_limited attempt_success)

section \<open>Streaming decoders: lines, chunks and the terminator\<close>

lemma split_str_append:
  "split_str sep (a @ b) =
     butlast (split_str sep a) @ split_str sep (last (split_str sep a) @ b)"
proof (induction a)
  case Nil
  then show ?case by simp
next
  case (Cons c cs)
  obtain p ps where sp: "split_str sep cs = p # ps"
    by (cases "split_str sep cs") auto
  show ?case
  proof (cases "c = sep")
    case True
    then show ?thesis using Cons by (simp add: sp)
  next
    case False
    show ?thesis
    proof (cases ps)
      case Nil
      with Cons sp have "split_str sep (cs @ b) = split_str sep (p @ b)" by simp
      with False Nil sp show ?thesis by simp
    next
      case (Cons q qs)
      with Cons.IH sp have "split_str sep (cs @ b) = p # butlast ps @ split_str sep (last ps @ b)"
        by simp
      with False Cons sp show ?thesis by simp
    qed
  qed
qed

lemma last_split_str_no_sep: "sep \<notin> set (last (split_str sep s))"
proof (induction s)
  case Nil
  then show ?case by simp
next
  case (Cons c cs)
  obtain p ps where sp: "split_str sep cs = p # ps"
    by (cases "split_str sep cs") auto
  with Cons show ?case by (cases ps) auto
qed

lemma butlast_split_str_append:
  "butlast (split_str sep (a @ b)) =
     butlast (split_str sep a) @ butlast (split_str sep (last (split_str sep a) @ b))"
  by (subst split_str_append) (simp add: butlast_append)

lemma last_split_str_append:
  "last (split_str sep (a @ b)) = last (split_str sep (last (split_str sep a) @ b))"
  by (subst split_str_append) simp

lemma split_str_wire:
  "\<forall>l \<in> set ls. newline \<notin> set l \<Longrightarrow> split_str newline (wire ls) = ls @ [[]]"
proof (induction ls)
  case Nil
  then show ?case by (simp add: wire_def)
next
  case (Cons l ls)
  then have l: "newline \<notin> set l" and IH: "split_str newline (wire ls) = ls @ [[]]" by auto
  have "split_str newline (l @ newline # wire ls) = l # split_str newline (wire ls)"
    using l by (induction l) auto
  then show ?case using IH by (simp add: wire_def)
qed

lemma for_lines_append:
  "for_lines parse (xs @ ys) s =
     (case for_lines parse xs s of (True, s1) \<Rightarrow> (True, s1) | (False, s1) \<Rightarrow> for_lines parse ys s1)"
  by (induction parse xs s rule: for_lines.induct)
     (auto simp: Let_def split: sum.splits prod.splits bool.splits)

lemma read_loop_lines:
  "newline \<notin> set buffer \<Longrightarrow>
   read_loop parse chunks buffer s =
     snd (for_lines parse (butlast (split_str newline (buffer @ concat chunks))) s)"
proof (induction chunks arbitrary: buffer s)
  case Nil
  then show ?case by (simp add: split_str_no_sep)
next
  case (Cons v rest)
  let ?lines = "split_str newline (buffer @ v)"
  have all: "butlast (split_str newline (buffer @ v @ concat rest)) =
      butlast ?lines @ butlast (split_str newline (last ?lines @ concat rest))"
    using butlast_split_str_append [of newline "buffer @ v" "concat rest"] by simp
  obtain stop s1 where f: "for_lines parse (butlast ?lines) s = (stop, s1)"
    by (cases "for_lines parse (butlast ?lines) s")
  show ?case
  proof (cases stop)
    case True
    with f show ?thesis by (simp add: all for_lines_append Let_def)
  next
    case False
    have "read_loop parse rest (last ?lines) s1 =
        snd (for_lines parse (butlast (split_str newline (last ?lines @ concat rest))) s1)"
      by (rule Cons.IH) (rule last_split_str_no_sep)
    with False f show ?thesis by (simp add: all for_lines_append Let_def)
  qed
qed

lemma streamChatCompletion_lines:
  "streamChatCompletion parse chunks =
     (snd (for_lines parse (butlast (split_str newline (concat chunks))) initial_sink))
       \<lparr> released := True \<rparr>"
  using read_loop_lines [of "[]" parse chunks initial_sink]
  by (simp add: streamChatCompletion_def)

lemma streamChatCompletion_chunking:
  "concat chunks = concat chunks' \<Longrightarrow>
   streamChatCompletion parse chunks = streamChatCompletion parse chunks'"
  by (simp add: streamChatCompletion_lines)

lemma streamChatCompletion_wire:
  assumes "concat chunks = wire ls" and "\<forall>l \<in> set ls. newline \<notin> set l"
  shows "streamChatCompletion parse chunks =
     (snd (for_lines parse ls initial_sink))\<lparr> released := True \<rparr>"
  using assms by (simp add: streamChatCompletion_lines split_str_wire)

lemma trim_Nil: "(trim s = []) = (\<forall>c \<in> set s. is_space c)"
proof
  assume "trim s = []"
  then have all: "\<forall>c \<in> set (dropWhile is_space s). is_space c"
    unfolding trim_def by (simp only: rev_is_Nil_conv dropWhile_eq_Nil_conv set_rev)
  have "dropWhile is_space s = []"
  proof (rule ccontr)
    assume ne: "dropWhile is_space s \<noteq> []"
    then have "\<not> is_space (hd (dropWhile is_space s))" by (rule hd_dropWhile)
    moreover have "hd (dropWhile is_space s) \<in> set (dropWhile is_space s)"
      using ne by (rule hd_in_set)
    ultimately show False using all by blast
  qed
  then show "\<forall>c \<in> set s. is_space c" by (simp only: dropWhile_eq_Nil_conv)
next
  assume "\<forall>c \<in> set s. is_space c"
  then have "dropWhile is_space s = []" by (simp only: dropWhile_eq_Nil_conv)
  then show "trim s = []" by (simp only: trim_def dropWhile.simps rev.simps)
qed

lemma starts_with_append [simp]: "starts_with (p @ s) p"
  by (induction p) auto

lemma data_line_not_blank [simp]: "trim (''data: '' @ p) \<noteq> []"
  by (auto simp: trim_Nil is_space_def)

lemma for_lines_data:
  "for_lines parse ((''data: '' @ p) # lines) s =
     (if p = ''[DONE]'' then (True, s\<lparr> completed := True \<rparr>)
      else case delta_content parse p of
             Inl e \<Rightarrow> for_lines parse lines (s\<lparr> parse_errors := Suc (parse_errors s) \<rparr>)
           | Inr c \<Rightarrow> for_lines parse lines
               (if truthy c then s\<lparr> emitted := emitted s @ [c] \<rparr> else s))"
proof -
  have "starts_with (''data: '' @ p) ''data: ''" by (rule starts_with_append)
  moreover have "drop 6 (''data: '' @ p) = p" by simp
  ultimately show ?thesis
    by (simp only: for_lines.simps data_line_not_blank Let_def simp_thms if_False)
qed


lemma for_lines_completed:
  "\<not> completed s \<Longrightarrow> completed (snd (for_lines parse ls s)) = fst (for_lines parse ls s)"
  by (induction parse ls s rule: for_lines.induct) (auto simp: Let_def split: sum.splits)

lemma for_lines_DONE:
  "for_lines parse (''data: [DONE]'' # lines) s = (True, s\<lparr> completed := True \<rparr>)"
  using for_lines_data [of parse "''[DONE]''" lines s] by simp

lemma for_lines_until_DONE:
  "for_lines parse (pre @ ''data: [DONE]'' # post) s = for_lines parse (pre @ [''data: [DONE]'']) s
   \<and> fst (for_lines parse (pre @ ''data: [DONE]'' # post) s)"
proof -
  obtain stop s1 where pre: "for_lines parse pre s = (stop, s1)"
    by (cases "for_lines parse pre s")
  show ?thesis
    by (cases stop) (simp_all only: for_lines_append pre for_lines_DONE split fst_conv simp_thms
      bool.case)
qed

lemma streamChatCompletion_stops_at_DONE:
  assumes "concat chunks = wire (pre @ ''data: [DONE]'' # post)"
    and "\<forall>l \<in> set (pre @ post). newline \<notin> set l"
  shows "streamChatCompletion parse chunks
           = streamChatCompletion parse [wire (pre @ [''data: [DONE]''])]
         \<and> completed (streamChatCompletion parse chunks)"
proof -
  let ?all = "pre @ ''data: [DONE]'' # post"
  have d: "newline \<notin> set ''data: [DONE]''" by (simp add: newline_def)
  have a: "\<forall>l \<in> set ?all. newline \<notin> set l" using assms(2) d by auto
  have b: "\<forall>l \<in> set (pre @ [''data: [DONE]'']). newline \<notin> set l" using assms(2) d by auto
  have one: "streamChatCompletion parse chunks
      = (snd (for_lines parse ?all initial_sink))\<lparr> released := True \<rparr>"
    using assms(1) a by (rule streamChatCompletion_wire)
  have two: "streamChatCompletion parse [wire (pre @ [''data: [DONE]''])]
      = (snd (for_lines parse (pre @ [''data: [DONE]'']) initial_sink))\<lparr> released := True \<rparr>"
    using b by (intro streamChatCompletion_wire) simp_all
  have same: "for_lines parse ?all initial_sink
      = for_lines parse (pre @ [''data: [DONE]'']) initial_sink"
    and stop: "fst (for_lines parse ?all initial_sink)"
    using for_lines_until_DONE [of parse pre post initial_sink] by blast+
  have "\<not> completed initial_sink" by (simp add: initial_sink_def)
  from for_lines_completed [OF this, of parse ?all] stop
  have "completed (snd (for_lines parse ?all initial_sink))" by blast
  then have "completed (streamChatCompletion parse chunks)" by (simp add: one)
  moreover have "streamChatCompletion parse chunks
           = streamChatCompletion parse [wire (pre @ [''data: [DONE]''])]"
    by (simp only: one two same)
  ultimately show ?thesis by blast
qed


lemma for_lines_valid:
  assumes "\<forall>f \<in> set frames. fst f \<noteq> ''[DONE]'' \<and> delta_content parse (fst f) = Inr (Str (snd f))"
  shows "for_lines parse (map (\<lambda>f. ''data: '' @ fst f) frames @ rest) s
           = for_lines parse rest
               (s\<lparr> emitted := emitted s @ filter truthy (map (\<lambda>f. Str (snd f)) frames) \<rparr>)"
  using assms
proof (induction frames arbitrary: s)
  case Nil
  then show ?case by simp
next
  case (Cons f fs)
  then have f: "fst f \<noteq> ''[DONE]''" "delta_content parse (fst f) = Inr (Str (snd f))"
    and fs: "\<forall>f \<in> set fs. fst f \<noteq> ''[DONE]'' \<and> delta_content parse (fst f) = Inr (Str (snd f))"
    by auto
  let ?s1 = "if truthy (Str (snd f)) then s\<lparr> emitted := emitted s @ [Str (snd f)] \<rparr> else s"
  have "map (\<lambda>f. ''data: '' @ fst f) (f # fs) @ rest
      = (''data: '' @ fst f) # (map (\<lambda>f. ''data: '' @ fst f) fs @ rest)"
    by simp
  then have "for_lines parse (map (\<lambda>f. ''data: '' @ fst f) (f # fs) @ rest) s
      = for_lines parse ((''data: '' @ fst f) # (map (\<lambda>f. ''data: '' @ fst f) fs @ rest)) s"
    by (rule arg_cong)
  also have "\<dots> = for_lines parse (map (\<lambda>f. ''data: '' @ fst f) fs @ rest) ?s1"
    using f by (simp only: for_lines_data if_False sum.case)
  also have "\<dots> = for_lines parse rest
      (?s1\<lparr> emitted := emitted ?s1 @ filter truthy (map (\<lambda>f. Str (snd f)) fs) \<rparr>)"
    using fs by (rule Cons.IH)
  also have "?s1\<lparr> emitted := emitted ?s1 @ filter truthy (map (\<lambda>f. Str (snd f)) fs) \<rparr>
      = s\<lparr> emitted := emitted s @ filter truthy (map (\<lambda>f. Str (snd f)) (f # fs)) \<rparr>"
    by simp
  finally show ?case .
qed

lemma text_of_append: "text_of (xs @ ys) = text_of xs @ text_of ys"
  by (induction xs rule: text_of.induct) simp_all

lemma text_of_deltas: "text_of (filter truthy (map (\<lambda>f. Str (snd f)) frames)) = concat (map snd frames)"
  by (induction frames) simp_all

lemma streamChatCompletion_full_message:
  assumes "concat chunks = wire (map (\<lambda>f. ''data: '' @ fst f) frames @ [''data: [DONE]''])"
    and "\<forall>f \<in> set frames. newline \<notin> set (fst f) \<and> fst f \<noteq> ''[DONE]''
           \<and> delta_content parse (fst f) = Inr (Str (snd f))"
  shows "text_of (emitted (streamChatCompletion parse chunks)) = concat (map snd frames)
    \<and> completed (streamChatCompletion parse chunks)
    \<and> parse_errors (streamChatCompletion parse chunks) = 0"
proof -
  let ?ls = "map (\<lambda>f. ''data: '' @ fst f) frames @ [''data: [DONE]'']"
  have "\<forall>l \<in> set ?ls. newline \<notin> set l" using assms(2) by (auto simp: newline_def)
  with assms(1) have "streamChatCompletion parse chunks
      = (snd (for_lines parse ?ls initial_sink))\<lparr> released := True \<rparr>"
    by (rule streamChatCompletion_wire)
  moreover have "for_lines parse ?ls initial_sink
      = for_lines parse [''data: [DONE]'']
          (initial_sink\<lparr> emitted := emitted initial_sink
             @ filter truthy (map (\<lambda>f. Str (snd f)) frames) \<rparr>)"
    using assms(2) by (intro for_lines_valid) blast
  ultimately show ?thesis
    by (simp add: for_lines_DONE initial_sink_def text_of_deltas del: for_lines.simps(2))
qed


lemma spec_example:
  "streamChatCompletion example_parse
     [take 20 frame_He, drop 20 frame_He @ [newline] @ take 3 frame_llo,
      drop 3 frame_llo @ [newline] @ frame_DONE, [newline]]
   = \<lparr> emitted = [Str ''He'', Str ''llo''], completed = True, parse_errors = 0, released = True \<rparr>"
  by (simp add: streamChatCompletion_def initial_sink_def frame_He_def frame_llo_def
      frame_DONE_def newline_def trim_def is_space_def example_parse_def delta_content_def
      delta_frame_def Let_def)

text \<open>
  Claim C3 says that nothing is decoded after the terminator. streamChatCompletion returns
  at the terminator (\<open>streamChatCompletion_stops_at_DONE\<close>). The page script
  generateResponse sets the badge to Complete and continues with the next line: on the
  stream \<open>He\<close>, \<open>[DONE]\<close>, \<open>llo\<close> it appends \<open>llo\<close> after the terminator, where
  streamChatCompletion emits \<open>He\<close> only.
\<close>

theorem page_continues_after_DONE:
  "generateResponse example_parse
     [frame_He @ [newline] @ frame_DONE @ [newline] @ frame_llo @ [newline]]
   = \<lparr> responseDiv = [Str ''He'', Str ''llo''], statusBadge = ''Complete'', page_errors = 0 \<rparr>
   \<and> streamChatCompletion example_parse
     [frame_He @ [newline] @ frame_DONE @ [newline] @ frame_llo @ [newline]]
   = \<lparr> emitted = [Str ''He''], completed = True, parse_errors = 0, released = True \<rparr>"
  by (simp add: generateResponse_def streamChatCompletion_def initial_sink_def frame_He_def
      frame_llo_def frame_DONE_def newline_def trim_def is_space_def example_parse_def
      delta_content_def delta_frame_def Let_def)

text \<open>
  Claim C4 says that a line split between two chunks is held back until it is complete, so
  that the deltas add up to the whole message. streamChatCompletion keeps the partial line
  in its buffer (\<open>streamChatCompletion_chunking\<close>, \<open>streamChatCompletion_full_message\<close>).
  The page script generateResponse splits every chunk on its own: when the chunk boundary
  falls inside the second line of the example, both halves fail its filter and the delta
  \<open>llo\<close> is lost, where streamChatCompletion emits \<open>He\<close> and \<open>llo\<close>.
\<close>

theorem page_loses_split_line:
  "generateResponse example_parse
     [frame_He @ [newline] @ take 2 frame_llo,
      drop 2 frame_llo @ [newline] @ frame_DONE @ [newline]]
   = \<lparr> responseDiv = [Str ''He''], statusBadge = ''Complete'', page_errors = 0 \<rparr>
   \<and> streamChatCompletion example_parse
     [frame_He @ [newline] @ take 2 frame_llo,
      drop 2 frame_llo @ [newline] @ frame_DONE @ [newline]]
   = \<lparr> emitted = [Str ''He'', Str ''llo''], completed = True, parse_errors = 0, released = True \<rparr>"
  by (simp add: generateResponse_def streamChatCompletion_def initial_sink_def frame_He_def
      frame_llo_def frame_DONE_def newline_def trim_def is_space_def example_parse_def
      delta_content_def delta_frame_def Let_def)

section \<open>Conversation: a failed send\<close>

lemma send_request:
  "send c u opts fetch = send c u opts (\<lambda>r. fetch
     \<lparr> req_model = model c, req_messages = messages (addMessage c ''user'' u), req_options = opts \<rparr>)"
  by (simp add: send_def Let_def)

lemma addMessage_last:
  assumes "0 < maxHistory c"
  shows "messages (addMessage c r t) \<noteq> [] \<and> last (messages (addMessage c r t)) = \<lparr> role = r, content = t \<rparr>"
proof -
  let ?all = "messages c @ [\<lparr> role = r, content = t \<rparr>]"
  have "int (length ?all) > maxHistory c \<Longrightarrow> length ?all - nat (maxHistory c) < length ?all"
    using assms by simp
  then show ?thesis using assms
    by (auto simp: addMessage_def Let_def slice_def max_def nat_add_distrib)
qed

text \<open>
  Claim C9. \<^verbatim>\<open>send\<close> appends the user message and then issues the request (which carries
  the history with that message, \<open>send_request\<close>). Whenever the call fails, the
  conversation is left as the append made it: nothing is rolled back, and (for a positive
  maximum, as the constructor sets it) the user message is the last of the history. The
  call fails when the request is rejected, when the body is not JSON and when the body is
  the API's error object (\<open>send_failures\<close>).
\<close>

theorem send_keeps_user_message:
  assumes "fst (send c u opts fetch) = Inl e" and "0 < maxHistory c"
  shows "snd (send c u opts fetch) = addMessage c ''user'' u
    \<and> messages (snd (send c u opts fetch)) \<noteq> []
    \<and> last (messages (snd (send c u opts fetch))) = \<lparr> role = ''user'', content = u \<rparr>"
proof -
  have "snd (send c u opts fetch) = addMessage c ''user'' u"
    using assms(1)
    by (auto simp: send_def Let_def split: fetch_result.splits option.splits sum.splits)
  with addMessage_last [OF assms(2), of "''user''" u] show ?thesis by simp
qed

lemma send_failures:
  "fst (send c u opts (\<lambda>r. Rejected)) = Inl FetchFailed"
  "body_json r = None \<Longrightarrow> fst (send c u opts (\<lambda>q. Resolved r)) = Inl JsonSyntaxError"
  "body_json r = Some (error_body m) \<Longrightarrow> fst (send c u opts (\<lambda>q. Resolved r)) = Inl TypeError"
  by (simp_all add: send_def Let_def error_body_def)

theorem send_keeps_user_message_witness:
  "fst (send (constructor ''k'' default_model) (Str ''Hi'') [] (\<lambda>r. Resolved unauthorized))
     = Inl TypeError
   \<and> 0 < maxHistory (constructor ''k'' default_model)
   \<and> messages (snd (send (constructor ''k'' default_model) (Str ''Hi'') []
        (\<lambda>r. Resolved unauthorized))) = [\<lparr> role = ''user'', content = Str ''Hi'' \<rparr>]"
  using send_keeps_user_message [of "constructor ''k'' default_model" "Str ''Hi''" "[]"
      "\<lambda>r. Resolved unauthorized" TypeError]
  by (simp add: send_def Let_def unauthorized_def error_body_def constructor_def addMessage_def)

lemma get_prop_error: "get_prop v k = Inl e \<Longrightarrow> e = TypeError"
  by (cases v) auto

lemma get_first_error: "get_first v = Inl e \<Longrightarrow> e = TypeError"
  by (cases v) auto

lemma bind_err_Inl:
  "bind_err m f = Inl e \<Longrightarrow> m = Inl e \<or> (\<exists>v. m = Inr v \<and> f v = Inl e)"
  by (cases m) auto

lemma nested_error: "nested d k f = Inl e \<Longrightarrow> e = TypeError"
  unfolding nested_def
  by (auto dest!: bind_err_Inl dest: get_prop_error get_first_error split: if_splits)

text \<open>
  Claim C6 says that generateStylizedImage returns a usable reference for the four
  response shapes and fails with an error that shows the payload for any other. The card
  generator does so (\<open>card_variant_shapes\<close>, \<open>card_variant_logs_payload\<close>). The variant
  of script.js reads three URL fields only and returns whatever the last one gives: for
  the JSON body \<^verbatim>\<open>{}\<close> it resolves to undefined, where the card generator logs the
  payload and throws.
\<close>

theorem script_variant_returns_undefined:
  "generateStylizedImage_script ''k'' ''data:image/png;base64,AAAA''
       (\<lambda>r. Resolved (json_response ''{}'' (Obj [])))
     = \<lparr> settled = Inr (Direct Undefined), console_log = [] \<rparr>
   \<and> generateStylizedImage ''k'' ''data:image/png;base64,AAAA''
       (\<lambda>r. Resolved (json_response ''{}'' (Obj [])))
     = \<lparr> settled = Inl CouldNotParseImageUrl, console_log = [Obj []] \<rparr>"
  by (simp add: generateStylizedImage_script_def generateStylizedImage_def json_response_def
      ok_def headers_get_def nested_def Let_def)

lemma script_variant_other_shapes:
  "generateStylizedImage_script key img (\<lambda>r. Resolved (png_response bytes))
     = \<lparr> settled = Inl JsonSyntaxError, console_log = [] \<rparr>"
  "generateStylizedImage_script key img
       (\<lambda>r. Resolved (json_response txt (Obj [(''data'', Arr [Obj [(''b64_json'', Str b)]])])))
     = \<lparr> settled = Inr (Direct Undefined), console_log = [] \<rparr>"
  "generateStylizedImage_script key img
       (\<lambda>r. Resolved (json_response txt (Obj [(''image'', Str b)])))
     = \<lparr> settled = Inr (Direct Undefined), console_log = [] \<rparr>"
  by (simp_all add: generateStylizedImage_script_def json_response_def png_response_def
      ok_def nested_def)

lemma card_variant_shapes:
  "generateStylizedImage key img (\<lambda>r. Resolved (png_response bytes))
     = \<lparr> settled = Inr (ObjectURL bytes), console_log = [] \<rparr>"
  "u \<noteq> [] \<Longrightarrow> generateStylizedImage key img
       (\<lambda>r. Resolved (json_response txt (Obj [(''url'', Str u)])))
     = \<lparr> settled = Inr (Direct (Str u)), console_log = [] \<rparr>"
  "u \<noteq> [] \<Longrightarrow> generateStylizedImage key img
       (\<lambda>r. Resolved (json_response txt (Obj [(''data'', Arr [Obj [(''url'', Str u)]])])))
     = \<lparr> settled = Inr (Direct (Str u)), console_log = [] \<rparr>"
  "b \<noteq> [] \<Longrightarrow> generateStylizedImage key img
       (\<lambda>r. Resolved (json_response txt (Obj [(''data'', Arr [Obj [(''b64_json'', Str b)]])])))
     = \<lparr> settled = Inr (PngDataUri (Str b)), console_log = [] \<rparr>"
  "b \<noteq> [] \<Longrightarrow> generateStylizedImage key img
       (\<lambda>r. Resolved (json_response txt (Obj [(''image'', Str b)])))
     = \<lparr> settled = Inr (PngDataUri (Str b)), console_log = [] \<rparr>"
  by (simp_all add: generateStylizedImage_def json_response_def png_response_def
      ok_def headers_get_def nested_def Let_def)

lemma card_variant_usable:
  "\<exists>ref. settled (generateStylizedImage key img (\<lambda>r. Resolved (png_response bytes))) = Inr ref
     \<and> usable ref"
  "u \<noteq> [] \<Longrightarrow> \<exists>ref. settled (generateStylizedImage key img
       (\<lambda>r. Resolved (json_response txt (Obj [(''url'', Str u)])))) = Inr ref \<and> usable ref"
  "u \<noteq> [] \<Longrightarrow> \<exists>ref. settled (generateStylizedImage key img
       (\<lambda>r. Resolved (json_response txt (Obj [(''data'', Arr [Obj [(''url'', Str u)]])]))))
         = Inr ref \<and> usable ref"
  "b \<noteq> [] \<Longrightarrow> \<exists>ref. settled (generateStylizedImage key img
       (\<lambda>r. Resolved (json_response txt (Obj [(''data'', Arr [Obj [(''b64_json'', Str b)]])]))))
         = Inr ref \<and> usable ref"
  by (simp_all add: card_variant_shapes)

lemma card_variant_type_error:
  "generateStylizedImage key img (\<lambda>r. Resolved (json_response txt (Obj [(''data'', Arr [])])))
     = \<lparr> settled = Inl TypeError, console_log = [] \<rparr>"
  by (simp add: generateStylizedImage_def json_response_def ok_def headers_get_def nested_def
      Let_def)

lemma card_variant_never_undefined:
  "settled (generateStylizedImage key img fetch) \<noteq> Inr (Direct Undefined)
   \<and> settled (generateStylizedImage key img fetch) \<noteq> Inr (PngDataUri Undefined)"
  by (auto simp: generateStylizedImage_def Let_def
      split: fetch_result.splits option.splits sum.splits)

lemma card_variant_logs_payload:
  assumes "settled (generateStylizedImage key img fetch) = Inl CouldNotParseImageUrl"
  shows "\<exists>r data. fetch (request_card key img) = Resolved r \<and> body_json r = Some data
    \<and> console_log (generateStylizedImage key img fetch) = [data]"
proof (cases "fetch (request_card key img)")
  case Rejected
  with assms show ?thesis by (simp add: generateStylizedImage_def)
next
  case (Resolved r)
  show ?thesis
  proof (cases "body_json r")
    case None
    with assms Resolved show ?thesis
      by (simp add: generateStylizedImage_def Let_def split: if_splits option.splits)
  next
    case (Some data)
    have no: "\<And>k f. nested data k f \<noteq> Inl CouldNotParseImageUrl"
      "\<And>k. get_prop data k \<noteq> Inl CouldNotParseImageUrl"
      using nested_error get_prop_error by fastforce+
    from assms Resolved Some show ?thesis
      by (simp add: generateStylizedImage_def Let_def no split: if_splits option.splits sum.splits)
        blast+
  qed
qed

end
